theory Spec2Isabelle
  imports Main "HOL-Library.AList"
begin

section \<open>Strings and the lodash compounders\<close>

text \<open>
  The adapter builds names with lodash's \<^verbatim>\<open>camelCase\<close>, \<^verbatim>\<open>startCase\<close> and
  \<^verbatim>\<open>snakeCase\<close>. lodash is a library outside the repository; the definitions below
  transcribe its \<^verbatim>\<open>createCompounder\<close> and \<^verbatim>\<open>words\<close> (lodash 4.17) for ASCII input:
  on ASCII \<^verbatim>\<open>deburr\<close> is the identity, the "misc" character class is empty, and every
  character that is no letter and no digit is a break character. A \<open>string\<close> is a list
  of ASCII characters.
\<close>

definition isLower :: "char \<Rightarrow> bool" where
  "isLower c = (97 \<le> (of_char c :: nat) \<and> (of_char c :: nat) \<le> 122)"

definition isUpper :: "char \<Rightarrow> bool" where
  "isUpper c = (65 \<le> (of_char c :: nat) \<and> (of_char c :: nat) \<le> 90)"

definition isDigit :: "char \<Rightarrow> bool" where
  "isDigit c = (48 \<le> (of_char c :: nat) \<and> (of_char c :: nat) \<le> 57)"

definition isAlnum :: "char \<Rightarrow> bool" where
  "isAlnum c = (isLower c \<or> isUpper c \<or> isDigit c)"

definition lowerChar :: "char \<Rightarrow> char" where
  "lowerChar c = (if isUpper c then char_of ((of_char c :: nat) + 32) else c)"

definition upperChar :: "char \<Rightarrow> char" where
  "upperChar c = (if isLower c then char_of ((of_char c :: nat) - 32) else c)"

definition toLowerCase :: "string \<Rightarrow> string" where
  "toLowerCase s = map lowerChar s"

fun upperFirst :: "string \<Rightarrow> string" where
  "upperFirst [] = []"
| "upperFirst (c # cs) = upperChar c # cs"

definition capitalize :: "string \<Rightarrow> string" where
  "capitalize s = upperFirst (toLowerCase s)"

text \<open>\<^verbatim>\<open>Array.prototype.join\<close> on a list of strings.\<close>

fun join :: "string \<Rightarrow> string list \<Rightarrow> string" where
  "join sep [] = []"
| "join sep [x] = x"
| "join sep (x # y # ys) = x @ sep @ join sep (y # ys)"

text \<open>
  \<^verbatim>\<open>reAsciiWord\<close>: the maximal runs of characters outside the ASCII break ranges, which
  on ASCII are the runs of letters and digits.
\<close>

function asciiWords :: "string \<Rightarrow> string list" where
  "asciiWords [] = []"
| "asciiWords (c # cs) =
     (if isAlnum c then takeWhile isAlnum (c # cs) # asciiWords (dropWhile isAlnum cs)
      else asciiWords cs)"
  by pat_completeness auto
termination
  by (relation "measure length") (auto simp: le_imp_less_Suc length_dropWhile_le)

text \<open>
  \<^verbatim>\<open>reHasUnicodeWord\<close>:
  \<^verbatim>\<open>/[a-z][A-Z]|[A-Z]{2}[a-z]|[0-9][a-zA-Z]|[a-zA-Z][0-9]|[^a-zA-Z0-9 ]/\<close>.
\<close>

definition isLetter :: "char \<Rightarrow> bool" where
  "isLetter c = (isLower c \<or> isUpper c)"

fun hasUnicodeWord :: "string \<Rightarrow> bool" where
  "hasUnicodeWord [] = False"
| "hasUnicodeWord (a # s) =
     ((\<not> isAlnum a \<and> a \<noteq> CHR '' '')
      \<or> (case s of
            [] \<Rightarrow> False
          | b # t \<Rightarrow>
              (isLower a \<and> isUpper b)
              \<or> (isDigit a \<and> isLetter b)
              \<or> (isLetter a \<and> isDigit b)
              \<or> (isUpper a \<and> isUpper b \<and> (case t of [] \<Rightarrow> False | c # _ \<Rightarrow> isLower c)))
      \<or> hasUnicodeWord s)"

text \<open>
  The ordinal alternatives of \<^verbatim>\<open>reUnicodeWord\<close>,
  \<^verbatim>\<open>\d*(?:1ST|2ND|3RD|(?![123])\dTH)(?=\b|[a-z_])\<close> and its lower-case twin: the last
  digit \<open>d\<close> of a digit run, the text \<open>r\<close> after the run. The result is the two-letter
  suffix the word takes, or nothing.
\<close>

definition ordSuffix :: "bool \<Rightarrow> char \<Rightarrow> string \<Rightarrow> string" where
  "ordSuffix upper d r =
     (let suf = take 2 r;
          want = (if d = CHR ''1'' then ''st'' else if d = CHR ''2'' then ''nd''
                  else if d = CHR ''3'' then ''rd'' else ''th'');
          want' = (if upper then map upperChar want else want);
          after = drop 2 r;
          blocked = (case after of [] \<Rightarrow> False
                     | x # _ \<Rightarrow> isDigit x \<or> (if upper then isUpper x else isLower x))
      in if suf = want' \<and> \<not> blocked then suf else [])"

text \<open>
  \<^verbatim>\<open>reUnicodeWord\<close> on ASCII text without apostrophes, one match per step. At a lower-case
  letter a word is the run of lower-case letters; at an upper-case letter it is that letter
  and the lower-case run after it, or the run of upper-case letters, less its last letter
  when a lower-case letter follows the run; at a digit it is the run of digits, with an
  ordinal suffix where one matches. Any other character is skipped.
\<close>

function unicodeWords :: "string \<Rightarrow> string list" where
  "unicodeWords [] = []"
| "unicodeWords (c # cs) =
     (if isLower c then
        takeWhile isLower (c # cs) # unicodeWords (dropWhile isLower cs)
      else if isUpper c then
        (let us = takeWhile isUpper cs; r = dropWhile isUpper cs in
         if r \<noteq> [] \<and> isLower (hd r) then
           (if us = [] then (c # takeWhile isLower r) # unicodeWords (dropWhile isLower r)
            else (c # butlast us) # unicodeWords (last us # r))
         else (c # us) # unicodeWords r)
      else if isDigit c then
        (let ds = takeWhile isDigit cs; r = dropWhile isDigit cs;
             d = last (c # ds);
             suf = (if ordSuffix True d r \<noteq> [] then ordSuffix True d r else ordSuffix False d r)
         in (c # ds @ suf) # unicodeWords (drop (length suf) r))
      else unicodeWords cs)"
  by pat_completeness auto
termination
proof (relation "measure length", goal_cases)
  case 1
  show ?case by simp
next
  case (2 c cs)
  show ?case by (simp add: le_imp_less_Suc length_dropWhile_le)
next
  case (3 c cs us r)
  have "length (dropWhile isLower r) \<le> length r" by (rule length_dropWhile_le)
  moreover have "length r \<le> length cs" using 3 by (simp add: length_dropWhile_le)
  ultimately show ?case by simp
next
  case (4 c cs us r)
  then have "us @ r = cs" by simp
  then have "length cs = length us + length r" by (metis length_append)
  moreover have "0 < length us" using 4 by simp
  ultimately show ?case by simp
next
  case (5 c cs us r)
  then show ?case by (simp add: le_imp_less_Suc length_dropWhile_le)
next
  case (6 c cs ds r d suf)
  have "length r \<le> length cs" using 6 by (simp add: length_dropWhile_le)
  then show ?case by simp
next
  case (7 c cs)
  show ?case by simp
qed

definition words :: "string \<Rightarrow> string list" where
  "words s = (if hasUnicodeWord s then unicodeWords s else asciiWords s)"

text \<open>
  \<^verbatim>\<open>createCompounder\<close>: apostrophes are removed (\<^verbatim>\<open>reApos\<close>), the text is split into
  words and the words are folded with the callback, which sees the word and its index.
\<close>

definition compoundWords :: "string \<Rightarrow> string list" where
  "compoundWords s = words (filter (\<lambda>c. c \<noteq> CHR 0x27) s)"

definition camelCase :: "string \<Rightarrow> string" where
  "camelCase s =
     (case map toLowerCase (compoundWords s) of
        [] \<Rightarrow> []
      | w # ws \<Rightarrow> w @ concat (map capitalize ws))"

definition snakeCase :: "string \<Rightarrow> string" where
  "snakeCase s = join ''_'' (map toLowerCase (compoundWords s))"

definition startCase :: "string \<Rightarrow> string" where
  "startCase s = join '' '' (map upperFirst (compoundWords s))"

section \<open>Naming conversion\<close>

text \<open>\<^verbatim>\<open>name.endsWith(suffix)\<close> and \<^verbatim>\<open>s.slice(0, -n)\<close>.\<close>

definition endsWith :: "string \<Rightarrow> string \<Rightarrow> bool" where
  "endsWith s suffix = (length suffix \<le> length s \<and> drop (length s - length suffix) s = suffix)"

definition sliceEnd :: "string \<Rightarrow> nat \<Rightarrow> string" where
  "sliceEnd s n = take (length s - n) s"

definition sfCase :: "string \<Rightarrow> bool \<Rightarrow> string" where
  "sfCase name custom = startCase (camelCase name) @ (if custom then ''__c'' else [])"

definition bpCase :: "string \<Rightarrow> string" where
  "bpCase name = (if endsWith name ''__c'' then sliceEnd (snakeCase name) 3 else snakeCase name)"

section \<open>Values, elements and constants\<close>

text \<open>
  An annotation value is a JavaScript value (\<^verbatim>\<open>Record<string, any>\<close>). The values the
  adapter reads and writes are strings, booleans, lists and nested objects; numbers do not
  occur and are left out. An object is an association list in insertion order, which is
  the order \<^verbatim>\<open>Object.entries\<close> and \<^verbatim>\<open>Object.values\<close> give for keys that are not array
  indices; \<open>AList.update\<close> is property assignment.
\<close>

datatype Value =
    Undefined
  | Null
  | VBool bool
  | VStr string
  | VList "Value list"
  | VObj "(string \<times> Value) list"

text \<open>The truth value a condition such as \<^verbatim>\<open>!obj.annotationsValues[key]\<close> tests.\<close>

fun truthy :: "Value \<Rightarrow> bool" where
  "truthy Undefined = False"
| "truthy Null = False"
| "truthy (VBool b) = b"
| "truthy (VStr s) = (s \<noteq> [])"
| "truthy (VList vs) = True"
| "truthy (VObj kvs) = True"

text \<open>The text a template literal \<^verbatim>\<open>`${v}`\<close> inserts for a value.\<close>

fun toStr :: "Value \<Rightarrow> string" where
  "toStr Undefined = ''undefined''"
| "toStr Null = ''null''"
| "toStr (VBool b) = (if b then ''true'' else ''false'')"
| "toStr (VStr s) = s"
| "toStr (VList vs) =
     join '','' (map (\<lambda>v. if v = Undefined \<or> v = Null then [] else toStr v) vs)"
| "toStr (VObj kvs) = ''[object Object]''"

text \<open>
  \<^verbatim>\<open>a === b\<close>: primitives are compared by value; arrays and objects by identity, and the
  two sides the adapter compares belong to different elements (a clone and another
  element), so they are never identical.
\<close>

fun strictEq :: "Value \<Rightarrow> Value \<Rightarrow> bool" where
  "strictEq (VList xs) b = False"
| "strictEq (VObj kvs) b = False"
| "strictEq a b = (a = b)"

text \<open>Reading a property: \<^verbatim>\<open>undefined\<close> when the key is absent.\<close>

definition getValue :: "(string \<times> Value) list \<Rightarrow> string \<Rightarrow> Value" where
  "getValue kvs k = (case map_of kvs k of None \<Rightarrow> Undefined | Some v \<Rightarrow> v)"

text \<open>The constants module.\<close>

definition SALESFORCE :: string where "SALESFORCE = ''salesforce''"
definition CUSTOM_FIELD :: string where "CUSTOM_FIELD = ''CustomField''"
definition CUSTOM_OBJECT :: string where "CUSTOM_OBJECT = ''CustomObject''"
definition METADATA_OBJECT_NAME_FIELD :: string where "METADATA_OBJECT_NAME_FIELD = ''fullName''"
definition METADATA_PROFILE_OBJECT :: string where "METADATA_PROFILE_OBJECT = ''Profile''"
definition PROFILE_NAME_SYSTEM_ADMINISTRATOR :: string where
  "PROFILE_NAME_SYSTEM_ADMINISTRATOR = ''Admin''"
definition REQUIRED :: string where "REQUIRED = ''required''"
definition LABEL :: string where "LABEL = ''label''"
definition RESTRICTED_PICKLIST :: string where "RESTRICTED_PICKLIST = ''restricted_pick_list''"
definition PICKLIST_VALUES :: string where "PICKLIST_VALUES = ''values''"
definition API_NAME :: string where "API_NAME = ''api_name''"

text \<open>
  Modelled from the spec: \<^verbatim>\<open>Type.DEFAULT\<close>, the key of the default-value annotation. The
  element framework (package adapter-api) is not among the source files; the key it
  declares is \<^verbatim>\<open>_default\<close>.
\<close>

definition DEFAULT :: string where "DEFAULT = ''_default''"

section \<open>Records of the client and of the element framework\<close>

text \<open>
  A save result carries an optional \<^verbatim>\<open>errors\<close> property, one error or an array of
  errors; the other properties of a result are not read. A client call answers with one
  result or an array of results.
\<close>

record SfError =
  message :: string

datatype SfErrors = OneError SfError | ManyErrors "SfError list"

record CompleteSaveResult =
  errors :: "SfErrors option"

datatype SaveResults = Single CompleteSaveResult | Array "CompleteSaveResult list"

datatype error = Error string

text \<open>
  A permission entry of a profile and the profile read from or written to the service
  (\<^verbatim>\<open>ProfileInfo{fullName, fieldPermissions[{field, editable, readable}]}\<close>).
\<close>

record FieldPermissions =
  field :: string
  editable :: bool
  readable :: bool

datatype ProfileInfo =
  ProfileInfo (fullName: string) (fieldPermissions: "FieldPermissions list")

text \<open>
  Modelled from the spec: the wire objects \<^verbatim>\<open>CustomField{fullName, type, label, required,
  picklistValues}\<close> and \<^verbatim>\<open>CustomObject{fullName, label, fields[]}\<close>, each the
  constructor applied to the arguments the adapter passes, in the adapter's order.
\<close>

datatype CustomField = CustomField Value string Value Value Value

datatype CustomObject = CustomObject Value Value "CustomField list"

text \<open>
  The field descriptors the service returns: of a data object (\<^verbatim>\<open>Field\<close>) and of a
  metadata type (\<^verbatim>\<open>ValueTypeField\<close>), with the properties the adapter reads.
\<close>

record PicklistEntry =
  pvalue :: string
  pdefaultValue :: bool

record Field =
  fname :: string
  ftype :: string
  flabel :: string
  fnillable :: bool
  fdefaultValue :: Value
  fpicklistValues :: "PicklistEntry list option"
  frestrictedPicklist :: bool

record ValueTypeField =
  vname :: string
  soapType :: string
  valueRequired :: bool
  vpicklistValues :: "PicklistEntry list option"

text \<open>
  The mutating client calls: \<^verbatim>\<open>create(type, metadata)\<close> with one object or an array of
  fields, \<^verbatim>\<open>delete(type, fullNames)\<close> with one name or an array of names, and
  \<^verbatim>\<open>update(type, profile)\<close>.
\<close>

datatype Metadata = MetadataObject CustomObject | MetadataFields "CustomField list"

datatype Names = OneName Value | ManyNames "string list"

datatype call =
    Create string Metadata
  | Delete string Names
  | Update string ProfileInfo

text \<open>
  Modelled from the spec: the client, an external collaborator. Every method either
  rejects (\<open>Inl\<close>) or resolves (\<open>Inr\<close>). Of the objects \<^verbatim>\<open>listSObjects\<close> and
  \<^verbatim>\<open>listMetadataObjects\<close> list, the adapter reads the name only. The three mutating
  methods are one function \<open>send\<close> of the calls made so far and the call made now.
\<close>

record SalesforceClient =
  listSObjects :: "error + string list"
  discoverSObject :: "string \<Rightarrow> error + Field list"
  listMetadataObjects :: "string \<Rightarrow> error + string list"
  readMetadata :: "string \<Rightarrow> string \<Rightarrow> error + ProfileInfo"
  send :: "call list \<Rightarrow> call \<Rightarrow> error + SaveResults"

text \<open>The identifier of a type: the adapter it belongs to and its name.\<close>

record TypeID =
  adapter :: string
  name :: string

text \<open>
  Modelled from the spec: the element of the typed element framework, "a typed node with
  a type identifier, a mapping of annotation-name to value, and (for object-like elements)
  a mapping of field-name to child element". A primitive type records which primitive it
  is and has no fields.
\<close>

datatype PrimitiveTypes = STRING | NUMBER

datatype Type =
  Type (typeID: TypeID) (primitive: "PrimitiveTypes option")
       (annotationsValues: "(string \<times> Value) list") (fields: "(string \<times> Type) list")

definition setAnnotationsValues :: "Type \<Rightarrow> (string \<times> Value) list \<Rightarrow> Type" where
  "setAnnotationsValues e a = Type (typeID e) (primitive e) a (fields e)"

definition setFields :: "Type \<Rightarrow> (string \<times> Type) list \<Rightarrow> Type" where
  "setFields e fs = Type (typeID e) (primitive e) (annotationsValues e) fs"

text \<open>The assignment \<^verbatim>\<open>element.annotationsValues[key] = v\<close>.\<close>

definition assign :: "Type \<Rightarrow> string \<Rightarrow> Value \<Rightarrow> Type" where
  "assign e k v = setAnnotationsValues e (AList.update k v (annotationsValues e))"

text \<open>
  Modelled from the spec: \<^verbatim>\<open>Type.annotate\<close> of the element framework, which stores each
  given annotation on the element ("If missing, they are synthesized").
\<close>

definition annotate :: "Type \<Rightarrow> (string \<times> Value) list \<Rightarrow> Type" where
  "annotate e kvs = fold (\<lambda>(k, v) e'. assign e' k v) kvs e"

text \<open>
  Modelled from the spec: \<^verbatim>\<open>ObjectType.getFieldsThatAreNotInOther\<close> of the element
  framework, "the field-name set present in" this element "but absent from" the other.
\<close>

definition getFieldsThatAreNotInOther :: "Type \<Rightarrow> Type \<Rightarrow> string list" where
  "getFieldsThatAreNotInOther this other =
     filter (\<lambda>k. k \<notin> set (map fst (fields other))) (map fst (fields this))"

section \<open>Diagnosing client results\<close>

definition newline :: string where
  "newline = [CHR 0x0A]"

fun errorMessage :: "SfErrors \<Rightarrow> string" where
  "errorMessage (ManyErrors es) = join newline (map message es)"
| "errorMessage (OneError e) = message e"

text \<open>The list \<^verbatim>\<open>errors\<close> that \<^verbatim>\<open>diagnose\<close> collects before it decides to throw.\<close>

fun collectErrors :: "SaveResults \<Rightarrow> string list" where
  "collectErrors (Array rs) = map errorMessage (List.map_filter errors rs)"
| "collectErrors (Single r) = (case errors r of Some e \<Rightarrow> [errorMessage e] | None \<Rightarrow> [])"

definition diagnose :: "SaveResults \<Rightarrow> error + unit" where
  "diagnose result =
     (let errs = collectErrors result
      in if length errs > 0 then Inl (Error (join newline errs)) else Inr ())"

text \<open>\<^verbatim>\<open>diagnose(await call)\<close>: a rejected call throws before \<^verbatim>\<open>diagnose\<close> runs.\<close>

fun awaitDiagnose :: "error + SaveResults \<Rightarrow> error + unit" where
  "awaitDiagnose (Inl e) = Inl e"
| "awaitDiagnose (Inr result) = diagnose result"

section \<open>Annotation normalization and the wire objects\<close>

definition innerAnnotate :: "Type \<Rightarrow> string \<Rightarrow> Type" where
  "innerAnnotate obj nm =
     (let obj1 = (if \<not> truthy (getValue (annotationsValues obj) API_NAME)
                  then annotate obj [(API_NAME, VStr (sfCase nm True))] else obj)
      in if \<not> truthy (getValue (annotationsValues obj1) LABEL)
         then annotate obj1 [(LABEL, VStr (sfCase nm False))] else obj1)"

text \<open>
  What \<^verbatim>\<open>annotateApiNameAndLabel\<close> leaves in the element it is given: the element itself
  is annotated under its type name, then each field under its field name.
\<close>

definition annotated :: "Type \<Rightarrow> Type" where
  "annotated element =
     (let e1 = innerAnnotate element (name (typeID element))
      in setFields e1 (map (\<lambda>(fieldName, fld). (fieldName, innerAnnotate fld fieldName))
                           (fields e1)))"

definition fieldFullName :: "Value \<Rightarrow> Value \<Rightarrow> string" where
  "fieldFullName typeApiName fieldApiName = toStr typeApiName @ ''.'' @ toStr fieldApiName"

definition apiName :: "Type \<Rightarrow> Value" where
  "apiName element = getValue (annotationsValues element) API_NAME"

definition toCustomField :: "Type \<Rightarrow> bool \<Rightarrow> Value \<Rightarrow> CustomField" where
  "toCustomField fld fullname objectName =
     CustomField
       (if fullname then VStr (fieldFullName objectName (getValue (annotationsValues fld) API_NAME))
        else getValue (annotationsValues fld) API_NAME)
       (name (typeID fld))
       (getValue (annotationsValues fld) LABEL)
       (getValue (annotationsValues fld) REQUIRED)
       (getValue (annotationsValues fld) PICKLIST_VALUES)"

definition toCustomObject :: "Type \<Rightarrow> CustomObject" where
  "toCustomObject element =
     CustomObject
       (getValue (annotationsValues element) API_NAME)
       (getValue (annotationsValues element) LABEL)
       (map (\<lambda>f. toCustomField f False (VStr [])) (map snd (fields element)))"

section \<open>Discovery\<close>

text \<open>
  Modelled from the spec: the type registry is "lookup-or-create" and "every returned type
  is a fresh clone", so \<^verbatim>\<open>getType\<close> yields an element with the identifier the adapter
  asks for and, as yet, no annotation and no field.
\<close>

definition getType :: "string \<Rightarrow> Type" where
  "getType nm =
     (let typeName = bpCase nm in
      if typeName = ''string'' then Type \<lparr>adapter = [], name = nm\<rparr> (Some STRING) [] []
      else if typeName = ''double'' then Type \<lparr>adapter = [], name = ''number''\<rparr> (Some NUMBER) [] []
      else if typeName = ''boolean'' then Type \<lparr>adapter = SALESFORCE, name = ''checkbox''\<rparr> None [] []
      else Type \<lparr>adapter = SALESFORCE, name = nm\<rparr> None [] [])"

text \<open>The values flagged as default, in the order of the picklist.\<close>

definition flaggedDefaults :: "PicklistEntry list \<Rightarrow> string list" where
  "flaggedDefaults pvs = map pvalue (filter (\<lambda>val. pdefaultValue val = True) pvs)"

text \<open>\<^verbatim>\<open>defaults.pop()\<close> is the last element of \<^verbatim>\<open>defaults\<close>, taken where it has one.\<close>

definition createSObjectFieldTypeElement :: "Field \<Rightarrow> Type" where
  "createSObjectFieldTypeElement fld =
     (let element = getType (ftype fld);
          e1 = assign element LABEL (VStr (flabel fld));
          e2 = assign e1 REQUIRED (VBool (fnillable fld));
          e3 = assign e2 DEFAULT (fdefaultValue fld)
      in case fpicklistValues fld of
           None \<Rightarrow> e3
         | Some pvs \<Rightarrow>
             if length pvs > 0 then
               (let e4 = assign e3 PICKLIST_VALUES (VList (map (\<lambda>val. VStr (pvalue val)) pvs));
                    e5 = assign e4 RESTRICTED_PICKLIST (VBool False);
                    e6 = (if frestrictedPicklist fld
                          then assign e5 RESTRICTED_PICKLIST (VBool (frestrictedPicklist fld))
                          else e5);
                    defaults = flaggedDefaults pvs
                in if length defaults > 0 then
                     (if ftype fld = ''picklist'' then assign e6 DEFAULT (VStr (last defaults))
                      else assign e6 DEFAULT (VList (map VStr defaults)))
                   else e6)
             else e3)"

definition createMetadataFieldTypeElement :: "ValueTypeField \<Rightarrow> Type" where
  "createMetadataFieldTypeElement fld =
     (let element = getType (soapType fld);
          e1 = assign element ''required'' (VBool (valueRequired fld))
      in case vpicklistValues fld of
           None \<Rightarrow> e1
         | Some pvs \<Rightarrow>
             if length pvs > 0 then
               (let e2 = assign e1 ''values'' (VList (map (\<lambda>val. VStr (pvalue val)) pvs));
                    defaults = flaggedDefaults pvs
                in if length defaults = 1 then assign e2 DEFAULT (VStr (last defaults))
                   else assign e2 DEFAULT (VList (map VStr defaults)))
             else e1)"











section \<open>Adding, updating and removing elements\<close>

text \<open>
  The callers' elements are objects that \<^verbatim>\<open>add\<close> and \<^verbatim>\<open>update\<close> receive by reference.
  A world holds the elements by reference (every reference below \<open>next_ref\<close> is in use)
  and the mutating client calls made so far.
\<close>

datatype world = World (heap: "nat \<Rightarrow> Type") (next_ref: nat) (calls: "call list")

text \<open>
  Modelled from the spec: \<^verbatim>\<open>ObjectType.clone\<close> of the element framework; "each operation
  works on element clones, never on shared instances". The clone is a new object with a
  copy of the element's identifier, annotations and fields.
\<close>

definition clone :: "world \<Rightarrow> nat \<Rightarrow> nat \<times> world" where
  "clone w element =
     (next_ref w, World ((heap w)(next_ref w := heap w element)) (Suc (next_ref w)) (calls w))"

text \<open>\<^verbatim>\<open>annotateApiNameAndLabel\<close> changes the element it is given in place.\<close>

definition annotateApiNameAndLabel :: "world \<Rightarrow> nat \<Rightarrow> world" where
  "annotateApiNameAndLabel w element =
     World ((heap w)(element := annotated (heap w element))) (next_ref w) (calls w)"

definition invoke :: "SalesforceClient \<Rightarrow> world \<Rightarrow> call \<Rightarrow> world \<times> (error + SaveResults)" where
  "invoke client w c = (World (heap w) (next_ref w) (calls w @ [c]), send client (calls w) c)"

definition updatePermissions ::
  "SalesforceClient \<Rightarrow> world \<Rightarrow> Value \<Rightarrow> Value list \<Rightarrow> world \<times> (error + SaveResults)" where
  "updatePermissions client w objectApiName fieldsApiName =
     invoke client w
       (Update METADATA_PROFILE_OBJECT
          (ProfileInfo PROFILE_NAME_SYSTEM_ADMINISTRATOR
             (map (\<lambda>f. \<lparr>field = fieldFullName objectApiName f, editable = True, readable = True\<rparr>)
                  fieldsApiName)))"

definition deleteCustomFields ::
  "SalesforceClient \<Rightarrow> world \<Rightarrow> Value \<Rightarrow> Value list \<Rightarrow> world \<times> (error + unit)" where
  "deleteCustomFields client w objectApiName fieldsApiName =
     (if length fieldsApiName = 0 then (w, Inr ())
      else
        (let (w1, result) =
               invoke client w
                 (Delete CUSTOM_FIELD
                    (ManyNames (map (\<lambda>fld. fieldFullName objectApiName fld) fieldsApiName)))
         in (w1, awaitDiagnose result)))"

definition createFields ::
  "SalesforceClient \<Rightarrow> world \<Rightarrow> Value \<Rightarrow> Type list \<Rightarrow> world \<times> (error + unit)" where
  "createFields client w relatedObjectApiName fieldsToAdd =
     (if length fieldsToAdd = 0 then (w, Inr ())
      else
        (let (w1, result) =
               invoke client w
                 (Create CUSTOM_FIELD
                    (MetadataFields (map (\<lambda>f. toCustomField f True relatedObjectApiName) fieldsToAdd)))
         in case awaitDiagnose result of
              Inl e \<Rightarrow> (w1, Inl e)
            | Inr _ \<Rightarrow>
                (let (w2, permissionsResult) =
                       updatePermissions client w1 relatedObjectApiName (map apiName fieldsToAdd)
                 in (w2, awaitDiagnose permissionsResult))))"

definition add :: "SalesforceClient \<Rightarrow> world \<Rightarrow> nat \<Rightarrow> world \<times> (error + nat)" where
  "add client w element =
     (let (post, w1) = clone w element;
          w2 = annotateApiNameAndLabel w1 post;
          (w3, result) =
            invoke client w2 (Create CUSTOM_OBJECT (MetadataObject (toCustomObject (heap w2 post))))
      in case awaitDiagnose result of
           Inl e \<Rightarrow> (w3, Inl e)
         | Inr _ \<Rightarrow>
             (let (w4, persmissionsResult) =
                    updatePermissions client w3 (apiName (heap w3 post))
                      (map (\<lambda>f. apiName f) (map snd (fields (heap w3 post))))
              in case awaitDiagnose persmissionsResult of
                   Inl e \<Rightarrow> (w4, Inl e)
                 | Inr _ \<Rightarrow> (w4, Inr post)))"


definition apiNamesDiffer :: "Value \<Rightarrow> Value \<Rightarrow> string" where
  "apiNamesDiffer pre post =
     ''Failed to update element as api names pre='' @ toStr pre
       @ '' and post='' @ toStr post @ '' are different''"

definition update :: "SalesforceClient \<Rightarrow> world \<Rightarrow> nat \<Rightarrow> nat \<Rightarrow> world \<times> (error + nat)" where
  "update client w prevElement newElement =
     (let (post, w1) = clone w newElement;
          w2 = annotateApiNameAndLabel w1 post
      in if \<not> strictEq (apiName (heap w2 post)) (apiName (heap w2 prevElement)) then
           (w2, Inl (Error (apiNamesDiffer (apiName (heap w2 prevElement)) (apiName (heap w2 post)))))
         else
           (case deleteCustomFields client w2 (apiName (heap w2 prevElement))
                   (map (\<lambda>fld. apiName (snd fld))
                      (filter (\<lambda>fld. fst fld \<in> set (getFieldsThatAreNotInOther
                                                        (heap w2 prevElement) (heap w2 post)))
                              (fields (heap w2 prevElement)))) of
              (w3, Inl e) \<Rightarrow> (w3, Inl e)
            | (w3, Inr _) \<Rightarrow>
                (case createFields client w3 (apiName (heap w3 post))
                        (map (\<lambda>fld. snd fld)
                           (filter (\<lambda>fld. fst fld \<in> set (getFieldsThatAreNotInOther
                                                             (heap w3 post) (heap w3 prevElement)))
                                   (fields (heap w3 post)))) of
                   (w4, Inl e) \<Rightarrow> (w4, Inl e)
                 | (w4, Inr _) \<Rightarrow> (w4, Inr post))))"

section \<open>Notions the properties are stated with\<close>

text \<open>The entries of a client answer: the results of an array, or the single result.\<close>

fun resultEntries :: "SaveResults \<Rightarrow> CompleteSaveResult list" where
  "resultEntries (Array rs) = rs"
| "resultEntries (Single r) = [r]"

text \<open>
  An element carries its API name and its label when both annotations hold a value that
  counts as true (for a string: a non-empty one), which is what \<^verbatim>\<open>innerAnnotate\<close>
  tests; it and its fields carry them when each of them does.
\<close>

definition annotationsSet :: "Type \<Rightarrow> bool" where
  "annotationsSet e = (truthy (getValue (annotationsValues e) API_NAME)
                       \<and> truthy (getValue (annotationsValues e) LABEL))"

definition fullyAnnotated :: "Type \<Rightarrow> bool" where
  "fullyAnnotated e = (annotationsSet e \<and> list_all (\<lambda>fld. annotationsSet (snd fld)) (fields e))"

text \<open>
  What normalization makes of an element. An element is synthesized from another under a
  name when it has the same identifier, its API name and its label are those of the other
  where they count as true and else the wire names built from the name (\<^verbatim>\<open>sfCase\<close> with
  and without the custom suffix), and all its other annotations are those of the other.
  An element is the normalized form of another when it is synthesized from it under the
  name of its type and its fields are, name by name and in order, synthesized from the
  other's fields under their field names, their own fields unchanged.
\<close>

definition otherAnnotations :: "Type \<Rightarrow> (string \<times> Value) list" where
  "otherAnnotations e =
     filter (\<lambda>kv. fst kv \<noteq> API_NAME \<and> fst kv \<noteq> LABEL) (annotationsValues e)"

definition synthesized :: "string \<Rightarrow> Type \<Rightarrow> Type \<Rightarrow> bool" where
  "synthesized nm before after =
     (typeID after = typeID before \<and> primitive after = primitive before
      \<and> getValue (annotationsValues after) API_NAME
          = (if truthy (getValue (annotationsValues before) API_NAME)
             then getValue (annotationsValues before) API_NAME else VStr (sfCase nm True))
      \<and> getValue (annotationsValues after) LABEL
          = (if truthy (getValue (annotationsValues before) LABEL)
             then getValue (annotationsValues before) LABEL else VStr (sfCase nm False))
      \<and> otherAnnotations after = otherAnnotations before)"

definition normalized :: "Type \<Rightarrow> Type \<Rightarrow> bool" where
  "normalized before after =
     (synthesized (name (typeID before)) before after
      \<and> list_all2 (\<lambda>old new. fst new = fst old \<and> synthesized (fst old) (snd old) (snd new)
                                \<and> fields (snd new) = fields (snd old))
           (fields before) (fields after))"

text \<open>
  The client calls an operation makes: those in the world it leaves that were not in the
  world it started from. Calls are told apart by their method.
\<close>

definition issued :: "world \<Rightarrow> world \<Rightarrow> call list" where
  "issued w w' = drop (length (calls w)) (calls w')"

fun isCreate :: "call \<Rightarrow> bool" where
  "isCreate (Create t m) = True"
| "isCreate c = False"

fun isDelete :: "call \<Rightarrow> bool" where
  "isDelete (Delete t n) = True"
| "isDelete c = False"

fun isUpdate :: "call \<Rightarrow> bool" where
  "isUpdate (Update t p) = True"
| "isUpdate c = False"

text \<open>
  The fields of one element that the other lacks, by field name, in the order of the
  first: "the field-name set present in" one version "but absent from" the other.
\<close>

definition onlyIn :: "Type \<Rightarrow> Type \<Rightarrow> (string \<times> Type) list" where
  "onlyIn a b = filter (\<lambda>fld. fst fld \<notin> set (map fst (fields b))) (fields a)"

text \<open>
  The calls \<^verbatim>\<open>update\<close> is expected to make for a previous version and a normalized new
  version: the batched deletion of the fields only the previous version has, the batched
  creation of the fields only the new version has, and the permission update that grants
  the system administrator read and edit access to the given fields of an object.
\<close>

definition deleteCall :: "Type \<Rightarrow> Type \<Rightarrow> call" where
  "deleteCall prev post =
     Delete CUSTOM_FIELD
       (ManyNames (map (\<lambda>fld. fieldFullName (apiName prev) (apiName (snd fld))) (onlyIn prev post)))"

definition createCall :: "Type \<Rightarrow> Type \<Rightarrow> call" where
  "createCall prev post =
     Create CUSTOM_FIELD
       (MetadataFields (map (\<lambda>fld. toCustomField (snd fld) True (apiName post)) (onlyIn post prev)))"

definition permissionsCall :: "Value \<Rightarrow> Type list \<Rightarrow> call" where
  "permissionsCall objectApiName flds =
     Update METADATA_PROFILE_OBJECT
       (ProfileInfo PROFILE_NAME_SYSTEM_ADMINISTRATOR
          (map (\<lambda>fld. \<lparr>field = fieldFullName objectApiName (apiName fld),
                       editable = True, readable = True\<rparr>) flds))"

text \<open>A call succeeds when it resolves with a result \<^verbatim>\<open>diagnose\<close> accepts.\<close>

definition succeeds :: "SalesforceClient \<Rightarrow> call list \<Rightarrow> call \<Rightarrow> bool" where
  "succeeds client before c = (awaitDiagnose (send client before c) = Inr ())"


text \<open>The individual messages of an \<^verbatim>\<open>errors\<close> property.\<close>

fun messages :: "SfErrors \<Rightarrow> string list" where
  "messages (ManyErrors es) = map message es"
| "messages (OneError e) = [message e]"

section \<open>Example elements, worlds and clients\<close>

text \<open>A string-typed field without annotations, and one that carries API name and label.\<close>

definition plainField :: Type where
  "plainField = Type \<lparr>adapter = [], name = ''string''\<rparr> (Some STRING) [] []"

definition namedField :: "string \<Rightarrow> string \<Rightarrow> Type" where
  "namedField api lbl =
     Type \<lparr>adapter = [], name = ''string''\<rparr> (Some STRING)
       [(''api_name'', VStr api), (''label'', VStr lbl)] []"

text \<open>An object with API name and an empty label.\<close>

definition exampleBlankLabel :: Type where
  "exampleBlankLabel =
     Type \<lparr>adapter = ''salesforce'', name = ''test''\<rparr> None
       [(''api_name'', VStr ''Test__c''), (''label'', VStr [])] []"

text \<open>
  The previous version of an object \<open>test\<close>, with fields \<open>a\<close> and \<open>b\<close>, all annotated;
  the new version, with fields \<open>b\<close> and \<open>c\<close>, not annotated; and the new version of an
  object of another name.
\<close>

definition examplePrev :: Type where
  "examplePrev =
     Type \<lparr>adapter = ''salesforce'', name = ''test''\<rparr> None
       [(''api_name'', VStr ''Test__c''), (''label'', VStr ''Test'')]
       [(''a'', namedField ''A__c'' ''A''), (''b'', namedField ''B__c'' ''B'')]"

definition exampleNew :: Type where
  "exampleNew =
     Type \<lparr>adapter = ''salesforce'', name = ''test''\<rparr> None []
       [(''b'', plainField), (''c'', plainField)]"

definition exampleOther :: Type where
  "exampleOther =
     Type \<lparr>adapter = ''salesforce'', name = ''bar''\<rparr> None [] [(''b'', plainField)]"

text \<open>
  A world with the previous version at reference 0, the new version at reference 1 and the
  other object at reference 2, before any client call.
\<close>

definition exampleWorld :: world where
  "exampleWorld =
     World (\<lambda>r. if r = 0 then examplePrev else if r = 1 then exampleNew else exampleOther) 3 []"

text \<open>
  A client whose calls all succeed, and clients that answer some calls with an error: the
  creation of an object, every deletion, every creation.
\<close>

definition failed :: "string \<Rightarrow> error + SaveResults" where
  "failed msg = Inr (Single \<lparr>errors = Some (OneError \<lparr>message = msg\<rparr>)\<rparr>)"

definition clientWith :: "(call list \<Rightarrow> call \<Rightarrow> error + SaveResults) \<Rightarrow> SalesforceClient" where
  "clientWith answer =
     \<lparr>listSObjects = Inr [], discoverSObject = (\<lambda>_. Inr []),
      listMetadataObjects = (\<lambda>_. Inr []), readMetadata = (\<lambda>_ _. Inl (Error ''no such profile'')),
      send = answer\<rparr>"

definition okClient :: SalesforceClient where
  "okClient = clientWith (\<lambda>_ _. Inr (Array [\<lparr>errors = None\<rparr>]))"

definition deleteFails :: SalesforceClient where
  "deleteFails =
     clientWith (\<lambda>_ c. case c of Delete _ _ \<Rightarrow> failed ''cannot delete''
                        | _ \<Rightarrow> Inr (Array [\<lparr>errors = None\<rparr>]))"

definition createFails :: SalesforceClient where
  "createFails =
     clientWith (\<lambda>_ c. case c of
                   Create _ _ \<Rightarrow>
                     Inr (Array [\<lparr>errors = Some (ManyErrors [\<lparr>message = ''bad label''\<rparr>,
                                                             \<lparr>message = ''bad field''\<rparr>])\<rparr>,
                                 \<lparr>errors = None\<rparr>,
                                 \<lparr>errors = Some (OneError \<lparr>message = ''no access''\<rparr>)\<rparr>])
                 | _ \<Rightarrow> Inr (Array [\<lparr>errors = None\<rparr>]))"

text \<open>
  A described field of a data object and of a metadata type with a picklist, and two
  picklists: one with two values flagged as default, one with a single flagged value.
\<close>

definition exampleDescribe :: "string \<Rightarrow> PicklistEntry list \<Rightarrow> Field" where
  "exampleDescribe ty pvs =
     \<lparr>fname = ''Kind__c'', ftype = ty, flabel = ''Kind'', fnillable = True,
      fdefaultValue = Undefined, fpicklistValues = Some pvs, frestrictedPicklist = False\<rparr>"

definition exampleValueType :: "PicklistEntry list \<Rightarrow> ValueTypeField" where
  "exampleValueType pvs =
     \<lparr>vname = ''kind'', soapType = ''Kind'', valueRequired = False, vpicklistValues = Some pvs\<rparr>"

definition twoDefaults :: "PicklistEntry list" where
  "twoDefaults = [\<lparr>pvalue = ''A'', pdefaultValue = True\<rparr>, \<lparr>pvalue = ''N'', pdefaultValue = False\<rparr>,
                  \<lparr>pvalue = ''B'', pdefaultValue = True\<rparr>]"

definition oneDefault :: "PicklistEntry list" where
  "oneDefault = [\<lparr>pvalue = ''A'', pdefaultValue = True\<rparr>, \<lparr>pvalue = ''N'', pdefaultValue = False\<rparr>]"

text \<open>The answer of the client \<open>createFails\<close> to a creation.\<close>

definition createErrors :: SaveResults where
  "createErrors =
     Array [\<lparr>errors = Some (ManyErrors [\<lparr>message = ''bad label''\<rparr>, \<lparr>message = ''bad field''\<rparr>])\<rparr>,
            \<lparr>errors = None\<rparr>,
            \<lparr>errors = Some (OneError \<lparr>message = ''no access''\<rparr>)\<rparr>]"



text \<open>
  A client whose profile updates report an error, and a client that answers every call with
  two results, the first with an empty array of errors, the second with one error.
\<close>

definition permissionFails :: SalesforceClient where
  "permissionFails =
     clientWith (\<lambda>_ c. case c of Update _ _ \<Rightarrow> failed ''no such profile''
                        | _ \<Rightarrow> Inr (Array [\<lparr>errors = None\<rparr>]))"

definition emptyErrors :: SaveResults where
  "emptyErrors =
     Array [\<lparr>errors = Some (ManyErrors [])\<rparr>, \<lparr>errors = Some (OneError \<lparr>message = ''b''\<rparr>)\<rparr>]"

definition emptyErrorsClient :: SalesforceClient where
  "emptyErrorsClient = clientWith (\<lambda>_ _. Inr emptyErrors)"

section \<open>Properties\<close>

subsection \<open>Naming conversion\<close>

text \<open>
  C2, at the name \<open>test\<close>: the wire name is \<open>Test__c\<close>; \<^verbatim>\<open>snakeCase\<close> turns it into
  \<open>test_c\<close>, where the suffix is two characters long, and \<^verbatim>\<open>bpCase\<close> cuts three
  characters off: the result is \<open>tes\<close>, while the snake-cased form of the name is \<open>test\<close>.
\<close>

theorem bpCase_sfCase_drops_a_letter:
  "sfCase ''test'' True = ''Test__c'' \<and> snakeCase ''Test__c'' = ''test_c''
   \<and> bpCase (sfCase ''test'' True) = ''tes'' \<and> snakeCase ''test'' = ''test''"
  by code_simp

subsection \<open>Diagnosing client results\<close>

lemma collectErrors_entries:
  "collectErrors result = map errorMessage (List.map_filter errors (resultEntries result))"
  by (cases result) (auto simp: List.map_filter_simps split: option.splits)

lemma map_filter_empty_iff:
  "(List.map_filter f xs = []) = (\<forall>x \<in> set xs. f x = None)"
  by (induction xs) (auto simp: List.map_filter_simps split: option.splits)

lemma diagnose_entries:
  "diagnose result =
     (if List.map_filter errors (resultEntries result) = [] then Inr ()
      else Inl (Error (join newline
             (map errorMessage (List.map_filter errors (resultEntries result))))))"
  by (simp add: diagnose_def Let_def collectErrors_entries)

subsection \<open>Annotation normalization\<close>

lemma assign_sel [simp]:
  "annotationsValues (assign e k v) = AList.update k v (annotationsValues e)"
  "fields (assign e k v) = fields e"
  "typeID (assign e k v) = typeID e"
  "primitive (assign e k v) = primitive e"
  by (simp_all add: assign_def setAnnotationsValues_def)

lemma annotate_single [simp]: "annotate e [(k, v)] = assign e k v"
  by (simp add: annotate_def)

lemma getValue_update [simp]:
  "getValue (AList.update k v al) k' = (if k' = k then v else getValue al k')"
  by (simp add: getValue_def update_conv')

lemma sfCase_custom_nonempty [simp]: "sfCase nm True \<noteq> []"
  by (simp add: sfCase_def)

lemma assign_assign [simp]: "assign (assign e k v) k v' = assign e k v'"
  by (simp add: assign_def setAnnotationsValues_def)

lemma innerAnnotate_sel [simp]:
  "fields (innerAnnotate obj nm) = fields obj"
  "typeID (innerAnnotate obj nm) = typeID obj"
  "primitive (innerAnnotate obj nm) = primitive obj"
  by (simp_all add: innerAnnotate_def Let_def)

lemma innerAnnotate_idem: "innerAnnotate (innerAnnotate obj nm) nm = innerAnnotate obj nm"
  by (simp add: innerAnnotate_def Let_def API_NAME_def LABEL_def)

lemma innerAnnotate_set: "annotationsSet obj \<Longrightarrow> innerAnnotate obj nm = obj"
  by (simp add: innerAnnotate_def annotationsSet_def)

lemma innerAnnotate_setFields:
  "innerAnnotate (setFields e fs) nm = setFields (innerAnnotate e nm) fs"
  by (simp add: innerAnnotate_def Let_def setFields_def assign_def setAnnotationsValues_def)

lemma setFields_sel [simp]:
  "fields (setFields e fs) = fs"
  "typeID (setFields e fs) = typeID e"
  "primitive (setFields e fs) = primitive e"
  "annotationsValues (setFields e fs) = annotationsValues e"
  "setFields (setFields e fs) fs' = setFields e fs'"
  by (simp_all add: setFields_def)

lemma setFields_same [simp]: "setFields e (fields e) = e"
  by (cases e) (simp add: setFields_def)

lemma annotated_idem: "annotated (annotated element) = annotated element"
  by (simp add: annotated_def Let_def innerAnnotate_setFields innerAnnotate_idem
        case_prod_unfold o_def)

lemma annotated_unchanged:
  assumes "fullyAnnotated element"
  shows "annotated element = element"
proof -
  have "map (\<lambda>(fieldName, fld). (fieldName, innerAnnotate fld fieldName)) (fields element)
          = fields element"
    using assms by (intro map_idI) (auto simp: innerAnnotate_set fullyAnnotated_def list_all_iff)
  then show ?thesis
    using assms by (simp add: annotated_def Let_def innerAnnotate_set fullyAnnotated_def)
qed

lemma filter_update_other:
  "\<forall>v'. \<not> P (k, v') \<Longrightarrow> filter P (AList.update k v al) = filter P al"
  by (induction al) auto

lemma otherAnnotations_assign:
  "k = API_NAME \<or> k = LABEL \<Longrightarrow> otherAnnotations (assign e k v) = otherAnnotations e"
  by (auto simp: otherAnnotations_def filter_update_other)

lemma innerAnnotate_synthesized: "synthesized nm obj (innerAnnotate obj nm)"
proof -
  have ne: "API_NAME \<noteq> LABEL" by (simp add: API_NAME_def LABEL_def)
  show ?thesis
    using ne by (auto simp: synthesized_def innerAnnotate_def Let_def otherAnnotations_assign)
qed

lemma annotated_fields:
  "fields (annotated element)
     = map (\<lambda>(fieldName, fld). (fieldName, innerAnnotate fld fieldName)) (fields element)"
  by (simp add: annotated_def Let_def)

lemma annotated_normalized: "normalized element (annotated element)"
proof -
  have obj: "synthesized (name (typeID element)) element (annotated element)"
    using innerAnnotate_synthesized [of "name (typeID element)" element]
    by (simp add: annotated_def Let_def synthesized_def otherAnnotations_def)
  have "list_all2 (\<lambda>old new. fst new = fst old \<and> synthesized (fst old) (snd old) (snd new)
                                \<and> fields (snd new) = fields (snd old))
           fs (map (\<lambda>(fieldName, fld). (fieldName, innerAnnotate fld fieldName)) fs)" for fs
    by (induction fs) (auto simp: innerAnnotate_synthesized)
  with obj show ?thesis by (simp add: normalized_def annotated_fields)
qed

text \<open>
  C7, as stated, fails for an element that carries an annotation whose value counts as
  false: the object below has an API name and a label, the label being the empty string,
  and normalization replaces the label.
\<close>

theorem annotated_blank_label_counterexample:
  "API_NAME \<in> fst ` set (annotationsValues exampleBlankLabel)
   \<and> LABEL \<in> fst ` set (annotationsValues exampleBlankLabel)
   \<and> fields exampleBlankLabel = []
   \<and> annotated exampleBlankLabel \<noteq> exampleBlankLabel"
  by code_simp

text \<open>
  C7, amended: normalization is idempotent, on the element as a value and in place, so
  applying it twice leaves every annotation of the object and of its fields as applying
  it once does; an element whose object and fields all carry an API name and a label that
  count as true (non-empty strings) is left entirely unchanged; and the element it leaves
  is the normalized form of the element it was given: an API name or a label, of the
  object or of a field, that is missing or counts as false is replaced by the wire name
  built from the type name or field name (with the custom suffix for the API name, without
  it for the label), one that counts as true is kept, and so is every other annotation.
\<close>

theorem annotateApiNameAndLabel_idempotent:
  "annotated (annotated element) = annotated element
   \<and> annotateApiNameAndLabel (annotateApiNameAndLabel w r) r = annotateApiNameAndLabel w r
   \<and> (fullyAnnotated element \<longrightarrow> annotated element = element)
   \<and> (fullyAnnotated (heap w r) \<longrightarrow> annotateApiNameAndLabel w r = w)
   \<and> heap (annotateApiNameAndLabel w r) r = annotated (heap w r)
   \<and> normalized element (annotated element)
   \<and> (\<not> truthy (getValue (annotationsValues element) API_NAME) \<longrightarrow>
        getValue (annotationsValues (annotated element)) API_NAME
          = VStr (sfCase (name (typeID element)) True))
   \<and> (\<not> truthy (getValue (annotationsValues element) LABEL) \<longrightarrow>
        getValue (annotationsValues (annotated element)) LABEL
          = VStr (sfCase (name (typeID element)) False))
   \<and> (truthy (getValue (annotationsValues element) API_NAME) \<longrightarrow>
        getValue (annotationsValues (annotated element)) API_NAME
          = getValue (annotationsValues element) API_NAME)
   \<and> (truthy (getValue (annotationsValues element) LABEL) \<longrightarrow>
        getValue (annotationsValues (annotated element)) LABEL
          = getValue (annotationsValues element) LABEL)"
proof -
  have idem: "annotated (annotated element) = annotated element
      \<and> annotateApiNameAndLabel (annotateApiNameAndLabel w r) r = annotateApiNameAndLabel w r
      \<and> (fullyAnnotated element \<longrightarrow> annotated element = element)
      \<and> (fullyAnnotated (heap w r) \<longrightarrow> annotateApiNameAndLabel w r = w)
      \<and> heap (annotateApiNameAndLabel w r) r = annotated (heap w r)"
    by (simp add: annotated_idem annotated_unchanged annotateApiNameAndLabel_def)
  have n: "normalized element (annotated element)"
    by (rule annotated_normalized)
  then have "synthesized (name (typeID element)) element (annotated element)"
    by (simp add: normalized_def)
  then have "(\<not> truthy (getValue (annotationsValues element) API_NAME) \<longrightarrow>
        getValue (annotationsValues (annotated element)) API_NAME
          = VStr (sfCase (name (typeID element)) True))
   \<and> (\<not> truthy (getValue (annotationsValues element) LABEL) \<longrightarrow>
        getValue (annotationsValues (annotated element)) LABEL
          = VStr (sfCase (name (typeID element)) False))
   \<and> (truthy (getValue (annotationsValues element) API_NAME) \<longrightarrow>
        getValue (annotationsValues (annotated element)) API_NAME
          = getValue (annotationsValues element) API_NAME)
   \<and> (truthy (getValue (annotationsValues element) LABEL) \<longrightarrow>
        getValue (annotationsValues (annotated element)) LABEL
          = getValue (annotationsValues element) LABEL)"
    by (simp add: synthesized_def)
  with idem n show ?thesis by blast
qed

theorem annotateApiNameAndLabel_idempotent_witness:
  "fullyAnnotated examplePrev
   \<and> annotated examplePrev = examplePrev
   \<and> annotateApiNameAndLabel exampleWorld 0 = exampleWorld
   \<and> annotated (annotated exampleNew) = annotated exampleNew
   \<and> apiName (annotated exampleNew) = VStr ''Test__c''
   \<and> normalized exampleNew (annotated exampleNew)
   \<and> getValue (annotationsValues (annotated exampleBlankLabel)) LABEL = VStr ''Test''
   \<and> getValue (annotationsValues (annotated exampleBlankLabel)) API_NAME = VStr ''Test__c''"
proof -
  have full: "fullyAnnotated examplePrev"
    by code_simp
  have name: "apiName (annotated exampleNew) = VStr ''Test__c''"
    by code_simp
  have blank: "\<not> truthy (getValue (annotationsValues exampleBlankLabel) LABEL)"
    "truthy (getValue (annotationsValues exampleBlankLabel) API_NAME)"
    "getValue (annotationsValues exampleBlankLabel) API_NAME = VStr ''Test__c''"
    "name (typeID exampleBlankLabel) = ''test''"
    by code_simp+
  have label: "sfCase ''test'' False = ''Test''"
    by code_simp
  have at0: "heap exampleWorld 0 = examplePrev"
    by (simp add: exampleWorld_def)
  from annotateApiNameAndLabel_idempotent [of examplePrev exampleWorld 0]
    annotateApiNameAndLabel_idempotent [of exampleNew exampleWorld 0]
    annotateApiNameAndLabel_idempotent [of exampleBlankLabel exampleWorld 0]
    full name blank label at0
  show ?thesis by simp
qed

subsection \<open>Picklist defaults\<close>

text \<open>
  C3, as stated, fails on the object-discovery path, where the shape of the default
  follows the type of the field, not the number of flagged values: a field of type
  \<open>picklist\<close> with two flagged values gets the last of them as a scalar, and a field of
  another type with one flagged value gets a list of one value.
\<close>

theorem picklist_default_counterexample:
  "flaggedDefaults twoDefaults = [''A'', ''B'']
   \<and> getValue (annotationsValues (createSObjectFieldTypeElement (exampleDescribe ''picklist'' twoDefaults))) DEFAULT
       = VStr ''B''
   \<and> flaggedDefaults oneDefault = [''A'']
   \<and> getValue (annotationsValues (createSObjectFieldTypeElement (exampleDescribe ''multipicklist'' oneDefault))) DEFAULT
       = VList [VStr ''A'']"
  by code_simp

text \<open>
  C3, amended. For a field with a non-empty picklist: on the metadata-type path the default
  annotation is the single flagged value as a scalar when exactly one value is flagged,
  and the list of all flagged values otherwise; on the object path, when at least one
  value is flagged, it is the last flagged value as a scalar for a field of type
  \<open>picklist\<close> and the list of all flagged values for a field of any other type, and when
  none is flagged it stays the default value of the field descriptor.
\<close>

theorem picklist_default_resolution:
  "(vpicklistValues mfld = Some pvs \<and> pvs \<noteq> [] \<longrightarrow>
      getValue (annotationsValues (createMetadataFieldTypeElement mfld)) DEFAULT
        = (if length (flaggedDefaults pvs) = 1 then VStr (hd (flaggedDefaults pvs))
           else VList (map VStr (flaggedDefaults pvs))))
   \<and> (fpicklistValues fld = Some pvs \<and> pvs \<noteq> [] \<and> flaggedDefaults pvs \<noteq> [] \<longrightarrow>
      getValue (annotationsValues (createSObjectFieldTypeElement fld)) DEFAULT
        = (if ftype fld = ''picklist'' then VStr (last (flaggedDefaults pvs))
           else VList (map VStr (flaggedDefaults pvs))))
   \<and> (fpicklistValues fld = Some pvs \<and> pvs \<noteq> [] \<and> flaggedDefaults pvs = [] \<longrightarrow>
      getValue (annotationsValues (createSObjectFieldTypeElement fld)) DEFAULT = fdefaultValue fld)"
proof -
  have single: "length xs = 1 \<Longrightarrow> last xs = hd xs" for xs :: "string list"
    by (cases xs) auto
  have m: "vpicklistValues mfld = Some pvs \<and> pvs \<noteq> [] \<longrightarrow>
      getValue (annotationsValues (createMetadataFieldTypeElement mfld)) DEFAULT
        = (if length (flaggedDefaults pvs) = 1 then VStr (hd (flaggedDefaults pvs))
           else VList (map VStr (flaggedDefaults pvs)))"
    by (simp add: createMetadataFieldTypeElement_def Let_def single)
  have s: "fpicklistValues fld = Some pvs \<and> pvs \<noteq> [] \<and> flaggedDefaults pvs \<noteq> [] \<longrightarrow>
      getValue (annotationsValues (createSObjectFieldTypeElement fld)) DEFAULT
        = (if ftype fld = ''picklist'' then VStr (last (flaggedDefaults pvs))
           else VList (map VStr (flaggedDefaults pvs)))"
    by (simp add: createSObjectFieldTypeElement_def Let_def)
  have n: "fpicklistValues fld = Some pvs \<and> pvs \<noteq> [] \<and> flaggedDefaults pvs = [] \<longrightarrow>
      getValue (annotationsValues (createSObjectFieldTypeElement fld)) DEFAULT = fdefaultValue fld"
    by (simp add: createSObjectFieldTypeElement_def Let_def DEFAULT_def PICKLIST_VALUES_def
          RESTRICTED_PICKLIST_def)
  from m s n show ?thesis by blast
qed

theorem picklist_default_resolution_witness:
  "getValue (annotationsValues (createMetadataFieldTypeElement (exampleValueType oneDefault))) DEFAULT
     = VStr ''A''
   \<and> getValue (annotationsValues (createMetadataFieldTypeElement (exampleValueType twoDefaults))) DEFAULT
     = VList [VStr ''A'', VStr ''B'']
   \<and> getValue (annotationsValues (createSObjectFieldTypeElement (exampleDescribe ''picklist'' oneDefault))) DEFAULT
     = VStr ''A''
   \<and> getValue (annotationsValues (createSObjectFieldTypeElement (exampleDescribe ''multipicklist'' twoDefaults))) DEFAULT
     = VList [VStr ''A'', VStr ''B'']"
proof -
  have one: "flaggedDefaults oneDefault = [''A'']" and two: "flaggedDefaults twoDefaults = [''A'', ''B'']"
    by code_simp+
  have ne: "oneDefault \<noteq> []" "twoDefaults \<noteq> []"
    by (simp_all add: oneDefault_def twoDefaults_def)
  from picklist_default_resolution [of "exampleValueType oneDefault" oneDefault
      "exampleDescribe ''picklist'' oneDefault"]
    picklist_default_resolution [of "exampleValueType twoDefaults" twoDefaults
      "exampleDescribe ''multipicklist'' twoDefaults"]
    one two ne
  show ?thesis by (simp add: exampleValueType_def exampleDescribe_def)
qed

subsection \<open>Runs of add and update\<close>

lemma filter_notInOther:
  "filter (\<lambda>fld. fst fld \<in> set (getFieldsThatAreNotInOther a b)) (fields a) = onlyIn a b"
  unfolding onlyIn_def getFieldsThatAreNotInOther_def
  by (rule filter_cong) auto

lemma invoke_sel [simp]:
  "heap (fst (invoke client w c)) = heap w"
  "next_ref (fst (invoke client w c)) = next_ref w"
  "calls (fst (invoke client w c)) = calls w @ [c]"
  "snd (invoke client w c) = send client (calls w) c"
  by (simp_all add: invoke_def)

lemma deleteCustomFields_sel [simp]:
  "heap (fst (deleteCustomFields client w obj names)) = heap w"
  "next_ref (fst (deleteCustomFields client w obj names)) = next_ref w"
  by (simp_all add: deleteCustomFields_def invoke_def)

lemma createFields_sel [simp]:
  "heap (fst (createFields client w obj flds)) = heap w"
  "next_ref (fst (createFields client w obj flds)) = next_ref w"
  by (simp_all add: createFields_def updatePermissions_def invoke_def Let_def split: sum.splits)

lemma add_heap:
  "heap (fst (add client w element)) = (heap w)(next_ref w := annotated (heap w element))"
  by (simp add: add_def clone_def annotateApiNameAndLabel_def updatePermissions_def invoke_def
        Let_def split: sum.splits)

lemma update_heap:
  "heap (fst (update client w prevElement newElement))
     = (heap w)(next_ref w := annotated (heap w newElement))"
  by (simp add: update_def clone_def annotateApiNameAndLabel_def Let_def case_prod_unfold
        split: sum.splits)

lemma add_result: "snd (add client w element) = Inr post \<Longrightarrow> post = next_ref w"
  by (simp add: add_def clone_def annotateApiNameAndLabel_def updatePermissions_def invoke_def
        Let_def split: sum.splits)

lemma update_result:
  "snd (update client w prevElement newElement) = Inr post \<Longrightarrow> post = next_ref w"
  by (simp add: update_def clone_def annotateApiNameAndLabel_def Let_def case_prod_unfold
        split: sum.splits if_splits)

lemma updatePermissions_eq:
  "updatePermissions client w obj (map apiName flds) = invoke client w (permissionsCall obj flds)"
  by (simp add: updatePermissions_def permissionsCall_def o_def)

lemma updatePermissions_snd:
  "updatePermissions client w obj (map (apiName \<circ> snd) kvs)
     = invoke client w (permissionsCall obj (map snd kvs))"
  by (simp add: updatePermissions_def permissionsCall_def o_def)

lemma add_issued:
  "issued w (fst (add client w element)) =
     Create CUSTOM_OBJECT (MetadataObject (toCustomObject (annotated (heap w element))))
     # (if succeeds client (calls w)
             (Create CUSTOM_OBJECT (MetadataObject (toCustomObject (annotated (heap w element)))))
        then [permissionsCall (apiName (annotated (heap w element)))
                (map snd (fields (annotated (heap w element))))]
        else [])"
  by (simp add: add_def clone_def annotateApiNameAndLabel_def succeeds_def invoke_def
        updatePermissions_snd Let_def issued_def split: sum.splits)

lemma deleteCustomFields_run:
  "deleteCustomFields client w obj names =
     (if names = [] then (w, Inr ())
      else (World (heap w) (next_ref w)
              (calls w @ [Delete CUSTOM_FIELD (ManyNames (map (fieldFullName obj) names))]),
            awaitDiagnose (send client (calls w)
              (Delete CUSTOM_FIELD (ManyNames (map (fieldFullName obj) names))))))"
  by (simp add: deleteCustomFields_def invoke_def)

lemma createFields_run:
  "createFields client w obj flds =
     (if flds = [] then (w, Inr ())
      else if succeeds client (calls w)
                (Create CUSTOM_FIELD (MetadataFields (map (\<lambda>f. toCustomField f True obj) flds)))
      then (World (heap w) (next_ref w)
              (calls w @ [Create CUSTOM_FIELD (MetadataFields (map (\<lambda>f. toCustomField f True obj) flds)),
                          permissionsCall obj flds]),
            awaitDiagnose (send client
              (calls w @ [Create CUSTOM_FIELD (MetadataFields (map (\<lambda>f. toCustomField f True obj) flds))])
              (permissionsCall obj flds)))
      else (World (heap w) (next_ref w)
              (calls w @ [Create CUSTOM_FIELD (MetadataFields (map (\<lambda>f. toCustomField f True obj) flds))]),
            awaitDiagnose (send client (calls w)
              (Create CUSTOM_FIELD (MetadataFields (map (\<lambda>f. toCustomField f True obj) flds))))))"
  by (simp add: createFields_def updatePermissions_eq invoke_def succeeds_def Let_def
        split: sum.splits)

lemma update_issued:
  assumes "prevElement < next_ref w"
    and "strictEq (apiName (annotated (heap w newElement))) (apiName (heap w prevElement))"
  shows "issued w (fst (update client w prevElement newElement)) =
     (let prev = heap w prevElement; post = annotated (heap w newElement);
          deletes = (if onlyIn prev post = [] then [] else [deleteCall prev post])
      in deletes @
         (if onlyIn prev post = [] \<or> succeeds client (calls w) (deleteCall prev post) then
            (if onlyIn post prev = [] then []
             else createCall prev post
                  # (if succeeds client (calls w @ deletes) (createCall prev post)
                     then [permissionsCall (apiName post) (map snd (onlyIn post prev))] else []))
          else []))"
  using assms
  by (simp add: update_def clone_def annotateApiNameAndLabel_def Let_def filter_notInOther
        deleteCustomFields_run createFields_run deleteCall_def createCall_def succeeds_def
        o_def issued_def split: sum.splits)

lemma update_issued_differ:
  assumes "prevElement < next_ref w"
    and "\<not> strictEq (apiName (annotated (heap w newElement))) (apiName (heap w prevElement))"
  shows "issued w (fst (update client w prevElement newElement)) = []"
  using assms by (simp add: update_def clone_def annotateApiNameAndLabel_def issued_def)

lemma join_append:
  "xs \<noteq> [] \<Longrightarrow> ys \<noteq> [] \<Longrightarrow> join sep (xs @ ys) = join sep xs @ sep @ join sep ys"
proof (induction sep xs rule: join.induct)
  case (1 sep)
  then show ?case by simp
next
  case (2 sep x)
  then show ?case by (cases ys) simp_all
next
  case (3 sep x y ys')
  then show ?case by simp
qed

lemma join_concat:
  "\<forall>xs \<in> set xss. xs \<noteq> [] \<Longrightarrow> join sep (map (join sep) xss) = join sep (concat xss)"
proof (induction xss)
  case Nil
  then show ?case by simp
next
  case (Cons xs xss)
  show ?case
  proof (cases xss)
    case Nil
    then show ?thesis by simp
  next
    case (Cons ys yss)
    with Cons.prems have ne: "xs \<noteq> []" "concat xss \<noteq> []" by auto
    have "join sep (map (join sep) (xs # xss)) = join sep xs @ sep @ join sep (map (join sep) xss)"
      using Cons by simp
    also have "\<dots> = join sep xs @ sep @ join sep (concat xss)"
      using Cons.IH Cons.prems by simp
    also have "\<dots> = join sep (concat (xs # xss))"
      using join_append [OF ne] by simp
    finally show ?thesis .
  qed
qed

lemma errorMessage_messages: "errorMessage e = join newline (messages e)"
  by (cases e) simp_all

lemma messages_nonempty: "e \<noteq> ManyErrors [] \<Longrightarrow> messages e \<noteq> []"
  by (cases e) auto

lemma joined_messages:
  assumes "\<forall>e \<in> set es. e \<noteq> ManyErrors []"
  shows "join newline (map errorMessage es) = join newline (concat (map messages es))"
proof -
  have "map errorMessage es = map (join newline) (map messages es)"
    by (simp add: errorMessage_messages)
  moreover have "\<forall>xs \<in> set (map messages es). xs \<noteq> []"
    using assms by (auto simp: messages_nonempty)
  ultimately show ?thesis by (simp only: join_concat)
qed

lemma okClient_send [simp]: "awaitDiagnose (send okClient before c) = Inr ()"
  by (simp add: okClient_def clientWith_def diagnose_def List.map_filter_simps)

lemma okClient_result: "send okClient before c = Inr (Array [\<lparr>errors = None\<rparr>])"
  by (simp add: okClient_def clientWith_def)

lemma exampleWorld_sel [simp]:
  "heap exampleWorld 0 = examplePrev" "heap exampleWorld 1 = exampleNew"
  "heap exampleWorld (Suc 0) = exampleNew"
  "heap exampleWorld 2 = exampleOther" "next_ref exampleWorld = 3" "calls exampleWorld = []"
  by (simp_all add: exampleWorld_def)

lemma example_apiNames:
  "apiName examplePrev = VStr ''Test__c''"
  "apiName (annotated exampleNew) = VStr ''Test__c''"
  "apiName (annotated exampleOther) = VStr ''Bar__c''"
  by code_simp+

lemma createFails_send [simp]:
  "send createFails before (Create t m) = Inr createErrors"
  "send createFails before (Delete t n) = Inr (Array [\<lparr>errors = None\<rparr>])"
  "send createFails before (Update t p) = Inr (Array [\<lparr>errors = None\<rparr>])"
  by (simp_all add: createFails_def clientWith_def createErrors_def)

lemma deleteFails_send [simp]:
  "send deleteFails before (Delete t n) = failed ''cannot delete''"
  "send deleteFails before (Create t m) = Inr (Array [\<lparr>errors = None\<rparr>])"
  "send deleteFails before (Update t p) = Inr (Array [\<lparr>errors = None\<rparr>])"
  by (simp_all add: deleteFails_def clientWith_def)

lemma update_outcome:
  assumes "prevElement < next_ref w"
    and "strictEq (apiName (annotated (heap w newElement))) (apiName (heap w prevElement))"
  shows "snd (update client w prevElement newElement) =
     (let prev = heap w prevElement; post = annotated (heap w newElement);
          deletes = (if onlyIn prev post = [] then [] else [deleteCall prev post])
      in case (if onlyIn prev post = [] then Inr ()
               else awaitDiagnose (send client (calls w) (deleteCall prev post))) of
           Inl e \<Rightarrow> Inl e
         | Inr _ \<Rightarrow>
             (case (if onlyIn post prev = [] then Inr ()
                    else case awaitDiagnose (send client (calls w @ deletes) (createCall prev post)) of
                           Inl e \<Rightarrow> Inl e
                         | Inr _ \<Rightarrow>
                             awaitDiagnose (send client (calls w @ deletes @ [createCall prev post])
                               (permissionsCall (apiName post) (map snd (onlyIn post prev))))) of
                Inl e \<Rightarrow> Inl e
              | Inr _ \<Rightarrow> Inr (next_ref w)))"
  using assms
  by (simp add: update_def clone_def annotateApiNameAndLabel_def Let_def filter_notInOther
        deleteCustomFields_run createFields_run deleteCall_def createCall_def succeeds_def
        o_def split: sum.splits)

lemma add_outcome:
  "snd (add client w element) =
     (let post = annotated (heap w element);
          create = Create CUSTOM_OBJECT (MetadataObject (toCustomObject post))
      in case awaitDiagnose (send client (calls w) create) of
           Inl e \<Rightarrow> Inl e
         | Inr _ \<Rightarrow>
             (case awaitDiagnose (send client (calls w @ [create])
                     (permissionsCall (apiName post) (map snd (fields post)))) of
                Inl e \<Rightarrow> Inl e
              | Inr _ \<Rightarrow> Inr (next_ref w)))"
  by (simp add: add_def clone_def annotateApiNameAndLabel_def invoke_def updatePermissions_snd
        Let_def split: sum.splits)

lemma permissionFails_send [simp]:
  "send permissionFails before (Update t p) = failed ''no such profile''"
  "send permissionFails before (Create t m) = Inr (Array [\<lparr>errors = None\<rparr>])"
  "send permissionFails before (Delete t n) = Inr (Array [\<lparr>errors = None\<rparr>])"
  by (simp_all add: permissionFails_def clientWith_def)

lemma emptyErrorsClient_send [simp]: "send emptyErrorsClient before c = Inr emptyErrors"
  by (simp add: emptyErrorsClient_def clientWith_def)

lemma example_onlyIn:
  "onlyIn examplePrev (annotated exampleNew) = [(''a'', namedField ''A__c'' ''A'')]"
  "onlyIn (annotated exampleNew) examplePrev = [(''c'', namedField ''C__c'' ''C'')]"
  by code_simp+

lemma example_diagnose:
  "diagnose (Array [\<lparr>errors = None\<rparr>]) = Inr ()"
  "diagnose (Single \<lparr>errors = Some (OneError \<lparr>message = msg\<rparr>)\<rparr>) = Inl (Error msg)"
  "diagnose createErrors
     = Inl (Error (''bad label'' @ newline @ ''bad field'' @ newline @ ''no access''))"
  by (simp_all add: diagnose_def createErrors_def List.map_filter_simps)

subsection \<open>Adding and updating\<close>




text \<open>
  C4: when the API name of the normalized new version differs from that of the previous
  version, \<^verbatim>\<open>update\<close> throws an error whose message names both values, and the list
  of client calls is what it was: no call is made.
\<close>

theorem update_rejects_changed_api_name:
  assumes "prevElement < next_ref w"
    and "\<not> strictEq (apiName (annotated (heap w newElement))) (apiName (heap w prevElement))"
  shows "snd (update client w prevElement newElement)
           = Inl (Error (''Failed to update element as api names pre=''
                          @ toStr (apiName (heap w prevElement)) @ '' and post=''
                          @ toStr (apiName (annotated (heap w newElement))) @ '' are different''))
         \<and> calls (fst (update client w prevElement newElement)) = calls w"
  using assms
  by (simp add: update_def clone_def annotateApiNameAndLabel_def apiNamesDiffer_def)

theorem update_rejects_changed_api_name_witness:
  "apiName (heap exampleWorld 0) = VStr ''Test__c''
   \<and> apiName (annotated (heap exampleWorld 2)) = VStr ''Bar__c''
   \<and> snd (update okClient exampleWorld 0 2)
       = Inl (Error ''Failed to update element as api names pre=Test__c and post=Bar__c are different'')
   \<and> calls (fst (update okClient exampleWorld 0 2)) = []"
proof -
  have ref: "0 < next_ref exampleWorld" by simp
  have ne: "\<not> strictEq (apiName (annotated (heap exampleWorld 2))) (apiName (heap exampleWorld 0))"
    by (simp add: example_apiNames)
  from update_rejects_changed_api_name [OF ref ne, of okClient]
  show ?thesis by (simp add: example_apiNames)
qed

text \<open>
  C9: \<^verbatim>\<open>add\<close> and \<^verbatim>\<open>update\<close> leave every element in use before the call as it
  was, the elements passed in among them; the element returned on success is a new one,
  the normalized copy of the element added or of the new version.
\<close>

theorem add_update_leave_callers_elements:
  "(\<forall>r < next_ref w. heap (fst (add client w element)) r = heap w r)
   \<and> (\<forall>r < next_ref w. heap (fst (update client w prevElement newElement)) r = heap w r)
   \<and> (snd (add client w element) = Inr post \<longrightarrow>
        post = next_ref w \<and> heap (fst (add client w element)) post = annotated (heap w element))
   \<and> (snd (update client w prevElement newElement) = Inr post \<longrightarrow>
        post = next_ref w
        \<and> heap (fst (update client w prevElement newElement)) post = annotated (heap w newElement))"
  by (auto simp: add_heap update_heap dest: add_result update_result)

theorem add_update_leave_callers_elements_witness:
  "heap (fst (add okClient exampleWorld 1)) 1 = exampleNew
   \<and> snd (add okClient exampleWorld 1) = Inr 3
   \<and> heap (fst (add okClient exampleWorld 1)) 3 = annotated exampleNew
   \<and> heap (fst (update okClient exampleWorld 0 1)) 0 = examplePrev
   \<and> heap (fst (update okClient exampleWorld 0 1)) 1 = exampleNew
   \<and> snd (update okClient exampleWorld 0 1) = Inr 3
   \<and> heap (fst (update okClient exampleWorld 0 1)) 3 = annotated exampleNew"
proof -
  have a: "snd (add okClient exampleWorld 1) = Inr 3"
    by (simp add: add_def clone_def annotateApiNameAndLabel_def updatePermissions_def invoke_def)
  have u: "snd (update okClient exampleWorld 0 1) = Inr 3"
    by (simp add: update_def clone_def annotateApiNameAndLabel_def deleteCustomFields_def
          createFields_def updatePermissions_def invoke_def example_apiNames Let_def)
  from add_update_leave_callers_elements [of exampleWorld okClient 1 0 1 3] a u
  show ?thesis by simp
qed

text \<open>
  C5, as stated, fails when an \<^verbatim>\<open>errors\<close> property is an empty array: for a result with
  an empty array of errors and one error with the message \<open>b\<close>, the message \<^verbatim>\<open>add\<close>
  throws is a newline followed by \<open>b\<close>, while the newline-join of all individual messages
  is \<open>b\<close>.
\<close>

theorem add_empty_errors_array_counterexample:
  "send emptyErrorsClient (calls exampleWorld)
      (Create CUSTOM_OBJECT (MetadataObject (toCustomObject (annotated (heap exampleWorld 1)))))
     = Inr (Array [\<lparr>errors = Some (ManyErrors [])\<rparr>,
                   \<lparr>errors = Some (OneError \<lparr>message = ''b''\<rparr>)\<rparr>])
   \<and> snd (add emptyErrorsClient exampleWorld 1) = Inl (Error (newline @ ''b''))
   \<and> join newline (concat (map messages [ManyErrors [], OneError \<lparr>message = ''b''\<rparr>])) = ''b''
   \<and> newline @ ''b'' \<noteq> ''b''"
proof -
  have "diagnose emptyErrors = Inl (Error (newline @ ''b''))"
    by (simp add: diagnose_def emptyErrors_def List.map_filter_simps)
  then have "snd (add emptyErrorsClient exampleWorld 1) = Inl (Error (newline @ ''b''))"
    by (simp add: add_outcome)
  then show ?thesis by (simp add: emptyErrors_def newline_def)
qed

text \<open>
  C5, amended: when the creation call of \<^verbatim>\<open>add\<close> resolves with a result in which some
  entry has a defined \<^verbatim>\<open>errors\<close> property, \<^verbatim>\<open>add\<close> throws an error whose message joins
  with newlines, entry by entry, the newline-join of the entry's individual messages (the
  empty string for an empty array), and the creation is the only call made: permissions
  are not updated. Where no \<^verbatim>\<open>errors\<close> property is an empty array, that message is the
  newline-join of all individual messages. When both calls resolve without errors,
  \<^verbatim>\<open>add\<close> returns a new element, the normalized form of the element it was given.
\<close>

theorem add_aborts_on_create_errors:
  "(send client (calls w) (Create CUSTOM_OBJECT (MetadataObject (toCustomObject (annotated (heap w element)))))
      = Inr result
    \<and> (\<exists>r \<in> set (resultEntries result). errors r \<noteq> None) \<longrightarrow>
      snd (add client w element)
        = Inl (Error (join newline
                 (map (\<lambda>e. join newline (messages e))
                      (List.map_filter errors (resultEntries result)))))
      \<and> issued w (fst (add client w element))
        = [Create CUSTOM_OBJECT (MetadataObject (toCustomObject (annotated (heap w element))))])
   \<and> ((\<forall>e \<in> set (List.map_filter errors (resultEntries result)). e \<noteq> ManyErrors []) \<longrightarrow>
      join newline (map (\<lambda>e. join newline (messages e))
                        (List.map_filter errors (resultEntries result)))
        = join newline (concat (map messages (List.map_filter errors (resultEntries result)))))
   \<and> (send client (calls w) (Create CUSTOM_OBJECT (MetadataObject (toCustomObject (annotated (heap w element)))))
      = Inr created \<and> diagnose created = Inr ()
    \<and> send client
        (calls w @ [Create CUSTOM_OBJECT (MetadataObject (toCustomObject (annotated (heap w element))))])
        (permissionsCall (apiName (annotated (heap w element)))
           (map snd (fields (annotated (heap w element)))))
      = Inr permitted \<and> diagnose permitted = Inr () \<longrightarrow>
      snd (add client w element) = Inr (next_ref w)
      \<and> heap (fst (add client w element)) (next_ref w) = annotated (heap w element)
      \<and> normalized (heap w element) (heap (fst (add client w element)) (next_ref w)))"
proof -
  let ?post = "annotated (heap w element)"
  let ?create = "Create CUSTOM_OBJECT (MetadataObject (toCustomObject ?post))"
  let ?defined = "List.map_filter errors (resultEntries result)"
  have msgs: "map errorMessage ?defined = map (\<lambda>e. join newline (messages e)) ?defined"
    by (simp add: errorMessage_messages)
  have raise: "snd (add client w element)
        = Inl (Error (join newline (map (\<lambda>e. join newline (messages e)) ?defined)))
      \<and> issued w (fst (add client w element)) = [?create]"
    if "send client (calls w) ?create = Inr result"
      and "\<exists>r \<in> set (resultEntries result). errors r \<noteq> None"
  proof -
    from that(2) have "?defined \<noteq> []"
      by (auto simp: map_filter_empty_iff)
    then have d: "diagnose result
        = Inl (Error (join newline (map (\<lambda>e. join newline (messages e)) ?defined)))"
      by (simp only: diagnose_entries msgs if_False)
    then have "\<not> succeeds client (calls w) ?create"
      using that(1) by (simp add: succeeds_def)
    then have "issued w (fst (add client w element)) = [?create]"
      by (simp add: add_issued)
    moreover have "snd (add client w element)
        = Inl (Error (join newline (map (\<lambda>e. join newline (messages e)) ?defined)))"
      using that(1) d by (simp add: add_outcome)
    ultimately show ?thesis by simp
  qed
  have flat: "join newline (map (\<lambda>e. join newline (messages e)) ?defined)
        = join newline (concat (map messages ?defined))"
    if "\<forall>e \<in> set ?defined. e \<noteq> ManyErrors []"
    using joined_messages [OF that] by (simp only: msgs)
  have ok: "snd (add client w element) = Inr (next_ref w)
      \<and> heap (fst (add client w element)) (next_ref w) = ?post
      \<and> normalized (heap w element) (heap (fst (add client w element)) (next_ref w))"
    if "send client (calls w) ?create = Inr created" and "diagnose created = Inr ()"
      and "send client (calls w @ [?create])
             (permissionsCall (apiName ?post) (map snd (fields ?post))) = Inr permitted"
      and "diagnose permitted = Inr ()"
    using that by (simp add: add_outcome add_heap annotated_normalized)
  from raise flat ok show ?thesis by blast
qed

theorem add_aborts_on_create_errors_witness:
  "snd (add createFails exampleWorld 1)
     = Inl (Error (''bad label'' @ newline @ ''bad field'' @ newline @ ''no access''))
   \<and> issued exampleWorld (fst (add createFails exampleWorld 1))
     = [Create CUSTOM_OBJECT (MetadataObject (toCustomObject (annotated exampleNew)))]
   \<and> snd (add okClient exampleWorld 1) = Inr 3
   \<and> heap (fst (add okClient exampleWorld 1)) 3 = annotated exampleNew
   \<and> normalized exampleNew (heap (fst (add okClient exampleWorld 1)) 3)
   \<and> apiName (heap (fst (add okClient exampleWorld 1)) 3) = VStr ''Test__c''"
proof -
  have d: "diagnose (Array [\<lparr>errors = None\<rparr>]) = Inr ()"
    by (simp add: diagnose_def List.map_filter_simps)
  have e: "List.map_filter errors (resultEntries createErrors)
      = [ManyErrors [\<lparr>message = ''bad label''\<rparr>, \<lparr>message = ''bad field''\<rparr>],
         OneError \<lparr>message = ''no access''\<rparr>]"
    by (simp add: createErrors_def List.map_filter_simps)
  have x: "\<exists>r \<in> set (resultEntries createErrors). errors r \<noteq> None"
    by (simp add: createErrors_def)
  from add_aborts_on_create_errors [of createFails exampleWorld 1 createErrors
      "Array [\<lparr>errors = None\<rparr>]" "Array [\<lparr>errors = None\<rparr>]"]
    add_aborts_on_create_errors [of okClient exampleWorld 1 createErrors
      "Array [\<lparr>errors = None\<rparr>]" "Array [\<lparr>errors = None\<rparr>]"]
    d e x
  show ?thesis by (auto simp: okClient_result example_apiNames)
qed

text \<open>
  C1, as stated, fails when the deletion reports an error: \<^verbatim>\<open>update\<close> throws after the
  delete call, and no create call is made although the new version has a field the previous
  version lacks.
\<close>

theorem update_delete_failure_counterexample:
  "strictEq (apiName (annotated (heap exampleWorld 1))) (apiName (heap exampleWorld 0))
   \<and> map fst (onlyIn (annotated (heap exampleWorld 1)) (heap exampleWorld 0)) = [''c'']
   \<and> filter isCreate (issued exampleWorld (fst (update deleteFails exampleWorld 0 1))) = []"
proof -
  have eq: "strictEq (apiName (annotated (heap exampleWorld 1))) (apiName (heap exampleWorld 0))"
    by (simp add: example_apiNames)
  have added: "map fst (onlyIn (annotated exampleNew) examplePrev) = [''c'']"
    by code_simp
  have removed: "map fst (onlyIn examplePrev (annotated exampleNew)) = [''a'']"
    by code_simp
  have f: "\<not> succeeds deleteFails [] c" if "isDelete c" for c
    using that by (cases c) (simp_all add: succeeds_def failed_def diagnose_def)
  have ne: "onlyIn examplePrev (annotated exampleNew) \<noteq> []"
    using removed by auto
  have ref: "0 < next_ref exampleWorld" by simp
  have "issued exampleWorld (fst (update deleteFails exampleWorld 0 1))
          = [deleteCall examplePrev (annotated exampleNew)]"
    using update_issued [OF ref eq, of deleteFails] ne
      f [of "deleteCall examplePrev (annotated exampleNew)"]
    by (simp add: deleteCall_def)
  then show ?thesis using eq added by (simp add: deleteCall_def)
qed

text \<open>
  C1, amended: for a previous and a new version with matching API names, \<^verbatim>\<open>update\<close>
  makes exactly one delete call, for the full names of precisely the fields only the
  previous version has, and none when there is no such field; and, provided the delete
  call, where one is made, succeeds, exactly one create call, for precisely the fields
  only the new version has, under their full names, and none when there is no such field.
  Fields of both versions occur in neither call. When the delete call is rejected or
  reports an error, \<^verbatim>\<open>update\<close> throws that error and makes no create call.
\<close>

theorem update_reconciles_fields:
  assumes "prevElement < next_ref w"
    and "strictEq (apiName (annotated (heap w newElement))) (apiName (heap w prevElement))"
  shows "filter isDelete (issued w (fst (update client w prevElement newElement)))
           = (if onlyIn (heap w prevElement) (annotated (heap w newElement)) = [] then []
              else [Delete CUSTOM_FIELD
                      (ManyNames (map (\<lambda>fld. fieldFullName (apiName (heap w prevElement)) (apiName (snd fld)))
                                      (onlyIn (heap w prevElement) (annotated (heap w newElement)))))])
         \<and> (onlyIn (heap w prevElement) (annotated (heap w newElement)) = []
              \<or> succeeds client (calls w) (deleteCall (heap w prevElement) (annotated (heap w newElement)))
            \<longrightarrow>
            filter isCreate (issued w (fst (update client w prevElement newElement)))
              = (if onlyIn (annotated (heap w newElement)) (heap w prevElement) = [] then []
                 else [Create CUSTOM_FIELD
                         (MetadataFields
                            (map (\<lambda>fld. toCustomField (snd fld) True (apiName (annotated (heap w newElement))))
                                 (onlyIn (annotated (heap w newElement)) (heap w prevElement))))]))
         \<and> (onlyIn (heap w prevElement) (annotated (heap w newElement)) \<noteq> []
              \<and> awaitDiagnose (send client (calls w)
                    (deleteCall (heap w prevElement) (annotated (heap w newElement)))) = Inl e
            \<longrightarrow>
            snd (update client w prevElement newElement) = Inl e
            \<and> filter isCreate (issued w (fst (update client w prevElement newElement))) = [])"
proof -
  have calls: "filter isDelete (issued w (fst (update client w prevElement newElement)))
           = (if onlyIn (heap w prevElement) (annotated (heap w newElement)) = [] then []
              else [Delete CUSTOM_FIELD
                      (ManyNames (map (\<lambda>fld. fieldFullName (apiName (heap w prevElement)) (apiName (snd fld)))
                                      (onlyIn (heap w prevElement) (annotated (heap w newElement)))))])
         \<and> (onlyIn (heap w prevElement) (annotated (heap w newElement)) = []
              \<or> succeeds client (calls w) (deleteCall (heap w prevElement) (annotated (heap w newElement)))
            \<longrightarrow>
            filter isCreate (issued w (fst (update client w prevElement newElement)))
              = (if onlyIn (annotated (heap w newElement)) (heap w prevElement) = [] then []
                 else [Create CUSTOM_FIELD
                         (MetadataFields
                            (map (\<lambda>fld. toCustomField (snd fld) True (apiName (annotated (heap w newElement))))
                                 (onlyIn (annotated (heap w newElement)) (heap w prevElement))))]))"
    by (simp add: update_issued [OF assms] Let_def deleteCall_def createCall_def permissionsCall_def)
  have failing: "snd (update client w prevElement newElement) = Inl e
            \<and> filter isCreate (issued w (fst (update client w prevElement newElement))) = []"
    if "onlyIn (heap w prevElement) (annotated (heap w newElement)) \<noteq> []"
      and "awaitDiagnose (send client (calls w)
                    (deleteCall (heap w prevElement) (annotated (heap w newElement)))) = Inl e"
    using that
    by (simp add: update_issued [OF assms] update_outcome [OF assms] Let_def succeeds_def
          deleteCall_def)
  from calls failing show ?thesis by blast
qed

theorem update_reconciles_fields_witness:
  "filter isDelete (issued exampleWorld (fst (update okClient exampleWorld 0 1)))
     = [Delete ''CustomField'' (ManyNames [''Test__c.A__c''])]
   \<and> filter isCreate (issued exampleWorld (fst (update okClient exampleWorld 0 1)))
     = [Create ''CustomField''
          (MetadataFields [CustomField (VStr ''Test__c.C__c'') ''string'' (VStr ''C'') Undefined Undefined])]
   \<and> snd (update deleteFails exampleWorld 0 1) = Inl (Error ''cannot delete'')
   \<and> filter isCreate (issued exampleWorld (fst (update deleteFails exampleWorld 0 1))) = []"
proof -
  have ref: "0 < next_ref exampleWorld" by simp
  have eq: "strictEq (apiName (annotated (heap exampleWorld 1))) (apiName (heap exampleWorld 0))"
    by (simp add: example_apiNames)
  have cf: "toCustomField (namedField ''C__c'' ''C'') True (VStr ''Test__c'')
      = CustomField (VStr ''Test__c.C__c'') ''string'' (VStr ''C'') Undefined Undefined"
    by code_simp
  have an: "apiName (namedField ''A__c'' ''A'') = VStr ''A__c''"
    by code_simp
  from update_reconciles_fields [OF ref eq, of okClient]
    update_reconciles_fields [OF ref eq, of deleteFails "Error ''cannot delete''"]
    example_onlyIn cf an
  show ?thesis
    by (simp add: example_apiNames succeeds_def fieldFullName_def CUSTOM_FIELD_def deleteCall_def
          failed_def example_diagnose)
qed

text \<open>
  C8: the permission update is a call for the profile \<open>Admin\<close> with one entry per given
  field, each with the full name of the field and both flags true. \<^verbatim>\<open>add\<close> makes it,
  once the object is created, for exactly the fields of the normalized element;
  \<^verbatim>\<open>update\<close> makes no permission update or one, for exactly the fields only the new
  version has.
\<close>

theorem permissions_only_for_added_fields:
  "permissionsCall obj flds
     = Update ''Profile''
         (ProfileInfo ''Admin''
            (map (\<lambda>fld. \<lparr>field = toStr obj @ ''.'' @ toStr (apiName fld),
                         editable = True, readable = True\<rparr>) flds))
   \<and> filter isUpdate (issued w (fst (add client w element)))
     = (if succeeds client (calls w)
             (Create CUSTOM_OBJECT (MetadataObject (toCustomObject (annotated (heap w element)))))
        then [permissionsCall (apiName (annotated (heap w element)))
                (map snd (fields (annotated (heap w element))))]
        else [])
   \<and> (prevElement < next_ref w \<longrightarrow>
        filter isUpdate (issued w (fst (update client w prevElement newElement))) = []
        \<or> filter isUpdate (issued w (fst (update client w prevElement newElement)))
            = [permissionsCall (apiName (annotated (heap w newElement)))
                 (map snd (onlyIn (annotated (heap w newElement)) (heap w prevElement)))])"
proof -
  have call: "permissionsCall obj flds
     = Update ''Profile''
         (ProfileInfo ''Admin''
            (map (\<lambda>fld. \<lparr>field = toStr obj @ ''.'' @ toStr (apiName fld),
                         editable = True, readable = True\<rparr>) flds))"
    by (simp add: permissionsCall_def METADATA_PROFILE_OBJECT_def
          PROFILE_NAME_SYSTEM_ADMINISTRATOR_def fieldFullName_def)
  have a: "filter isUpdate (issued w (fst (add client w element)))
     = (if succeeds client (calls w)
             (Create CUSTOM_OBJECT (MetadataObject (toCustomObject (annotated (heap w element)))))
        then [permissionsCall (apiName (annotated (heap w element)))
                (map snd (fields (annotated (heap w element))))]
        else [])"
    by (simp add: add_issued permissionsCall_def)
  have u: "filter isUpdate (issued w (fst (update client w prevElement newElement))) = []
        \<or> filter isUpdate (issued w (fst (update client w prevElement newElement)))
            = [permissionsCall (apiName (annotated (heap w newElement)))
                 (map snd (onlyIn (annotated (heap w newElement)) (heap w prevElement)))]"
    if ref: "prevElement < next_ref w"
  proof (cases "strictEq (apiName (annotated (heap w newElement))) (apiName (heap w prevElement))")
    case True
    show ?thesis
      by (simp add: update_issued [OF ref True] Let_def deleteCall_def createCall_def
            permissionsCall_def)
  next
    case False
    show ?thesis by (simp add: update_issued_differ [OF ref False])
  qed
  from call a u show ?thesis by blast
qed

theorem permissions_only_for_added_fields_witness:
  "filter isUpdate (issued exampleWorld (fst (add okClient exampleWorld 1)))
     = [Update ''Profile''
          (ProfileInfo ''Admin''
             [\<lparr>field = ''Test__c.B__c'', editable = True, readable = True\<rparr>,
              \<lparr>field = ''Test__c.C__c'', editable = True, readable = True\<rparr>])]
   \<and> filter isUpdate (issued exampleWorld (fst (update okClient exampleWorld 0 1)))
     = [Update ''Profile''
          (ProfileInfo ''Admin'' [\<lparr>field = ''Test__c.C__c'', editable = True, readable = True\<rparr>])]"
proof -
  have flds: "fields (annotated exampleNew)
      = [(''b'', namedField ''B__c'' ''B''), (''c'', namedField ''C__c'' ''C'')]"
    by code_simp
  have added: "onlyIn (annotated exampleNew) examplePrev = [(''c'', namedField ''C__c'' ''C'')]"
    by code_simp
  have an: "apiName (namedField ''C__c'' ''C'') = VStr ''C__c''"
    "apiName (namedField ''B__c'' ''B'') = VStr ''B__c''"
    by code_simp+
  have u: "filter isUpdate (issued exampleWorld (fst (update okClient exampleWorld 0 1))) \<noteq> []"
  proof -
    have ref: "0 < next_ref exampleWorld" by simp
    have eq: "strictEq (apiName (annotated (heap exampleWorld 1))) (apiName (heap exampleWorld 0))"
      by (simp add: example_apiNames)
    show ?thesis
      using update_issued [OF ref eq, of okClient] added
      by (simp add: Let_def succeeds_def permissionsCall_def createCall_def deleteCall_def)
  qed
  from permissions_only_for_added_fields
      [of "apiName (annotated exampleNew)" "map snd (fields (annotated exampleNew))"
          exampleWorld okClient 1 0 1]
    permissions_only_for_added_fields
      [of "apiName (annotated exampleNew)" "map snd (onlyIn (annotated exampleNew) examplePrev)"
          exampleWorld okClient 1 0 1]
    flds added an u
  show ?thesis by (simp add: example_apiNames succeeds_def o_def)
qed

subsection \<open>Discovery of field-level security\<close>





lemma getType_sel [simp]: "annotationsValues (getType nm) = []" "fields (getType nm) = []"
  by (simp_all add: getType_def Let_def)

















end
